theory Spec2Isabelle
  imports Complex_Main "HOL-Library.Multiset"
begin

section \<open>JavaScript numbers\<close>

text \<open>
  The estimator of \<^verbatim>\<open>src/fee-estimator.ts\<close> computes with JavaScript numbers. A number
  is modelled as a real, or one of the three special values that division, square root
  and the reading of an absent property produce. Rounding of doubles is not modelled,
  and zero is taken with positive sign (\<^verbatim>\<open>x / 0\<close> has the sign of \<^verbatim>\<open>x\<close>).
\<close>

datatype jsnum = Num real | PosInf | NegInf | NaN

text \<open>An absent property reads as \<^verbatim>\<open>undefined\<close>, which arithmetic turns into NaN.\<close>

fun toNum :: "real option \<Rightarrow> jsnum" where
  "toNum None = NaN"
| "toNum (Some r) = Num r"

fun js_neg :: "jsnum \<Rightarrow> jsnum" where
  "js_neg (Num a) = Num (- a)"
| "js_neg PosInf = NegInf"
| "js_neg NegInf = PosInf"
| "js_neg NaN = NaN"

fun js_add :: "jsnum \<Rightarrow> jsnum \<Rightarrow> jsnum" where
  "js_add (Num a) (Num b) = Num (a + b)"
| "js_add NaN _ = NaN"
| "js_add _ NaN = NaN"
| "js_add PosInf NegInf = NaN"
| "js_add NegInf PosInf = NaN"
| "js_add PosInf _ = PosInf"
| "js_add _ PosInf = PosInf"
| "js_add NegInf _ = NegInf"
| "js_add _ NegInf = NegInf"

definition js_sub :: "jsnum \<Rightarrow> jsnum \<Rightarrow> jsnum" where
  "js_sub a b = js_add a (js_neg b)"

fun js_lt :: "jsnum \<Rightarrow> jsnum \<Rightarrow> bool" where
  "js_lt (Num a) (Num b) = (a < b)"
| "js_lt NaN _ = False"
| "js_lt _ NaN = False"
| "js_lt PosInf _ = False"
| "js_lt _ NegInf = False"
| "js_lt NegInf _ = True"
| "js_lt _ PosInf = True"

definition js_eq :: "jsnum \<Rightarrow> jsnum \<Rightarrow> bool" where
  "js_eq a b = (a = b \<and> a \<noteq> NaN)"

definition js_gt :: "jsnum \<Rightarrow> jsnum \<Rightarrow> bool" where
  "js_gt a b = js_lt b a"

definition js_le :: "jsnum \<Rightarrow> jsnum \<Rightarrow> bool" where
  "js_le a b = (js_lt a b \<or> js_eq a b)"

definition js_ge :: "jsnum \<Rightarrow> jsnum \<Rightarrow> bool" where
  "js_ge a b = js_le b a"

fun js_mul :: "jsnum \<Rightarrow> jsnum \<Rightarrow> jsnum" where
  "js_mul (Num a) (Num b) = Num (a * b)"
| "js_mul NaN _ = NaN"
| "js_mul _ NaN = NaN"
| "js_mul PosInf b = (if js_lt (Num 0) b then PosInf else if js_lt b (Num 0) then NegInf else NaN)"
| "js_mul NegInf b = (if js_lt (Num 0) b then NegInf else if js_lt b (Num 0) then PosInf else NaN)"
| "js_mul a PosInf = (if js_lt (Num 0) a then PosInf else if js_lt a (Num 0) then NegInf else NaN)"
| "js_mul a NegInf = (if js_lt (Num 0) a then NegInf else if js_lt a (Num 0) then PosInf else NaN)"

fun js_div :: "jsnum \<Rightarrow> jsnum \<Rightarrow> jsnum" where
  "js_div (Num a) (Num b) =
     (if b \<noteq> 0 then Num (a / b)
      else if a = 0 then NaN
      else if 0 < a then PosInf else NegInf)"
| "js_div NaN _ = NaN"
| "js_div _ NaN = NaN"
| "js_div (Num a) _ = Num 0"
| "js_div PosInf (Num b) = (if 0 \<le> b then PosInf else NegInf)"
| "js_div NegInf (Num b) = (if 0 \<le> b then NegInf else PosInf)"
| "js_div _ _ = NaN"

fun js_sqrt :: "jsnum \<Rightarrow> jsnum" where
  "js_sqrt (Num a) = (if a < 0 then NaN else Num (sqrt a))"
| "js_sqrt PosInf = PosInf"
| "js_sqrt NegInf = NaN"
| "js_sqrt NaN = NaN"

section \<open>Arrays and streams\<close>

text \<open>
  \<^verbatim>\<open>Array.prototype.sort(compare)\<close>, as a stable sort: an element moves behind another
  only when the comparator, called on the two in their current order, is positive (a NaN
  comparator result counts as zero). Elements are inserted from the right, so elements
  the comparator does not separate keep their order.

  This is the result of the engine's sort where that sort is stable and the comparator
  is consistent. V8 before version 7.0 (Node before 11) sorts arrays of at most 10
  elements by a stable insertion sort and longer arrays by a quicksort that is not
  stable, and later versions sort every array stably. Where the comparator returns NaN
  between some of the elements it is not consistent, and the order of the result depends
  on the engine's algorithm.
\<close>

fun insertBy :: "('a \<Rightarrow> 'a \<Rightarrow> jsnum) \<Rightarrow> 'a \<Rightarrow> 'a list \<Rightarrow> 'a list" where
  "insertBy compare x [] = [x]"
| "insertBy compare x (y # ys) =
     (if js_gt (compare x y) (Num 0) then y # insertBy compare x ys else x # y # ys)"

fun sortBy :: "('a \<Rightarrow> 'a \<Rightarrow> jsnum) \<Rightarrow> 'a list \<Rightarrow> 'a list" where
  "sortBy compare [] = []"
| "sortBy compare (x # xs) = insertBy compare x (sortBy compare xs)"

text \<open>Reading an array at an index: \<^verbatim>\<open>undefined\<close> out of range.\<close>

definition readAt :: "'a list \<Rightarrow> nat \<Rightarrow> 'a option" where
  "readAt xs i = (if i < length xs then Some (xs ! i) else None)"

text \<open>
  An observable is modelled by the list of the values it has emitted, in order.
  \<^verbatim>\<open>scan(f)\<close> without a seed emits the first value as it is and then, for every further
  value, \<^verbatim>\<open>f\<close> of the value it emitted last and the new value.
\<close>

fun scanFrom :: "('a \<Rightarrow> 'a \<Rightarrow> 'a) \<Rightarrow> 'a \<Rightarrow> 'a list \<Rightarrow> 'a list" where
  "scanFrom f acc [] = []"
| "scanFrom f acc (x # xs) = f acc x # scanFrom f (f acc x) xs"

fun scan :: "('a \<Rightarrow> 'a \<Rightarrow> 'a) \<Rightarrow> 'a list \<Rightarrow> 'a list" where
  "scan f [] = []"
| "scan f (x # xs) = x # scanFrom f x xs"

text \<open>\<^verbatim>\<open>bufferCount(2, 1)\<close> of a stream that has not completed: every two neighbours.\<close>

fun bufferCount2 :: "'a list \<Rightarrow> ('a \<times> 'a) list" where
  "bufferCount2 (x # y # ys) = (x, y) # bufferCount2 (y # ys)"
| "bufferCount2 _ = []"

text \<open>lodash's \<^verbatim>\<open>differenceBy\<close>, \<^verbatim>\<open>meanBy\<close> and \<^verbatim>\<open>minBy\<close> on arrays of objects whose
  iteratee value is a number: the mean of an empty array is NaN, and \<^verbatim>\<open>minBy\<close> keeps the
  first element of least value, passing over NaN.\<close>

definition differenceBy :: "'a list \<Rightarrow> 'a list \<Rightarrow> ('a \<Rightarrow> 'k) \<Rightarrow> 'a list" where
  "differenceBy xs ys f = filter (\<lambda>x. f x \<notin> set (map f ys)) xs"

definition meanBy :: "'a list \<Rightarrow> ('a \<Rightarrow> jsnum) \<Rightarrow> jsnum" where
  "meanBy xs f =
     (case xs of
        [] \<Rightarrow> NaN
      | x # rest \<Rightarrow> js_div (foldl js_add (f x) (map f rest)) (Num (real (length xs))))"

fun minByFrom :: "('a \<Rightarrow> jsnum) \<Rightarrow> 'a option \<Rightarrow> 'a list \<Rightarrow> 'a option" where
  "minByFrom f result [] = result"
| "minByFrom f result (v # vs) =
     (if (case result of None \<Rightarrow> js_eq (f v) (f v) | Some r \<Rightarrow> js_lt (f v) (f r))
      then minByFrom f (Some v) vs
      else minByFrom f result vs)"

definition minBy :: "'a list \<Rightarrow> ('a \<Rightarrow> jsnum) \<Rightarrow> 'a option" where
  "minBy xs f = minByFrom f None xs"

section \<open>The packed mempool: \<^verbatim>\<open>sortByFee\<close>\<close>

text \<open>
  An entry of the node's raw mempool, as \<^verbatim>\<open>sortByFee\<close> reads it. \<^verbatim>\<open>size\<close> and \<^verbatim>\<open>fee\<close>
  are numbers; the aggregate fields are read under two spellings, and a spelling the
  entry does not carry is absent.
\<close>

record RawTx =
  size_raw :: real
  fee_raw :: real
  descendentsize_raw :: "real option"
  descendentfees_raw :: "real option"
  descendantsize_raw :: "real option"
  descendantfees_raw :: "real option"

text \<open>The object the first \<^verbatim>\<open>map\<close> of \<^verbatim>\<open>sortByFee\<close> builds, and the packed transaction.\<close>

record FeeTx =
  size_tx :: real
  fee :: real
  descendantsize :: "real option"
  descendantfees :: "real option"
  txid :: string
  feeRate :: jsnum

record MempoolTx = FeeTx +
  cumSize :: real
  targetBlock :: int

text \<open>\<^verbatim>\<open>blockSize * (1 - minersReservedBlockRatio)\<close>, of the configuration's constants.\<close>

definition blockEffectiveSize :: "real \<Rightarrow> real \<Rightarrow> real" where
  "blockEffectiveSize blockSize minersReservedBlockRatio =
     blockSize * (1 - minersReservedBlockRatio)"

text \<open>
  The raw mempool is the list of its entries in the order \<^verbatim>\<open>Object.keys\<close> enumerates
  them. Lines 44 to 51: the stored aggregate fields are read under the spelling
  \<^verbatim>\<open>descendent...\<close>, the fee rate under the spelling \<^verbatim>\<open>descendant...\<close>.
\<close>

definition toFeeTx :: "string \<times> RawTx \<Rightarrow> FeeTx" where
  "toFeeTx p =
     (case p of (k, e) \<Rightarrow>
        \<lparr> size_tx = size_raw e,
          fee = fee_raw e,
          descendantsize = descendentsize_raw e,
          descendantfees = descendentfees_raw e,
          txid = k,
          feeRate = js_div (toNum (descendantfees_raw e)) (toNum (descendantsize_raw e)) \<rparr>)"

text \<open>The comparator \<^verbatim>\<open>(a, b) => b.feeRate - a.feeRate\<close> (lines 52 and 100).\<close>

definition byFeeRate :: "'a FeeTx_scheme \<Rightarrow> 'a FeeTx_scheme \<Rightarrow> jsnum" where
  "byFeeRate a b = js_sub (feeRate b) (feeRate a)"

text \<open>
  Lines 53 to 60. The callback of the second \<^verbatim>\<open>map\<close> updates the three variables
  \<^verbatim>\<open>cumSize\<close>, \<^verbatim>\<open>targetBlock\<close> and \<^verbatim>\<open>n\<close>; \<open>packStep\<close> is one call of it, on the state
  \<open>(cumSize, targetBlock, n)\<close>.
\<close>

definition packStep ::
    "real \<Rightarrow> real \<times> int \<times> int \<Rightarrow> FeeTx \<Rightarrow> MempoolTx \<times> (real \<times> int \<times> int)" where
  "packStep bes s tx =
     (case s of (cumSize0, targetBlock0, n0) \<Rightarrow>
        let c = cumSize0 + size_tx tx;
            crossed = (c > real_of_int n0 * bes);
            t = (if crossed then targetBlock0 + 1 else targetBlock0);
            n = (if crossed then n0 + 1 else n0)
        in (\<lparr> size_tx = size_tx tx, fee = fee tx, descendantsize = descendantsize tx,
               descendantfees = descendantfees tx, txid = txid tx, feeRate = feeRate tx,
               cumSize = c, targetBlock = t \<rparr>,
            (c, t, n)))"

fun pack :: "real \<Rightarrow> real \<times> int \<times> int \<Rightarrow> FeeTx list \<Rightarrow> MempoolTx list" where
  "pack bes s [] = []"
| "pack bes s (tx # txs) =
     (case packStep bes s tx of (tx', s') \<Rightarrow> tx' # pack bes s' txs)"

definition sortByFeeFrom ::
    "real \<Rightarrow> (string \<times> RawTx) list \<Rightarrow> real \<Rightarrow> int \<Rightarrow> int \<Rightarrow> MempoolTx list" where
  "sortByFeeFrom bes txs cumSize0 targetBlock0 n0 =
     pack bes (cumSize0, targetBlock0, n0) (sortBy byFeeRate (map toFeeTx txs))"

text \<open>\<^verbatim>\<open>sortByFee(txs)\<close>, with the defaults \<^verbatim>\<open>cumSize = 0, targetBlock = 1, n = 1\<close>.\<close>

definition sortByFee :: "real \<Rightarrow> (string \<times> RawTx) list \<Rightarrow> MempoolTx list" where
  "sortByFee bes txs = sortByFeeFrom bes txs 0 1 1"

section \<open>Removed transactions and mined blocks\<close>

definition last2Mempools :: "MempoolTx list list \<Rightarrow> (MempoolTx list \<times> MempoolTx list) list" where
  "last2Mempools memPooler = bufferCount2 memPooler"

definition removedTxsShared :: "MempoolTx list list \<Rightarrow> MempoolTx list list" where
  "removedTxsShared memPooler =
     map (\<lambda>txs. differenceBy (fst txs) (snd txs) txid) (last2Mempools memPooler)"

text \<open>Line 89: \<^verbatim>\<open>.filter(txs => txs.length > 500)\<close>, on the stream of removed sets.\<close>

definition minedTxs :: "'a list list \<Rightarrow> 'a list list" where
  "minedTxs removed = filter (\<lambda>txs. length txs > 500) removed"

text \<open>Lines 92 and 93: the elements whose index exceeds \<^verbatim>\<open>xs.length * (1 - quantile)\<close>.\<close>

definition minQuant :: "'a list \<Rightarrow> real \<Rightarrow> 'a list" where
  "minQuant xs quantile =
     map fst (filter (\<lambda>p. real (snd p) > real (length xs) * (1 - quantile))
                     (zip xs [0..<length xs]))"

record MinedTx = MempoolTx +
  timestamp :: real
  ibi :: real

record Summary =
  ibi_sum :: real
  date_sum :: real
  txs_sum :: nat
  blockSize_sum :: real
  timestamp_sum :: real
  fee_sum :: "real \<rightharpoonup> jsnum"
  minFeeTx_sum :: "MinedTx option"

datatype error = TypeError

definition quantiles :: "real list" where
  "quantiles = [4/10, 2/10, 1/10, 5/100, 1/100, 5/1000, 1/1000]"

text \<open>
  Lines 99 and 100: a mined event, stamped with the time \<open>ts\<close> (milliseconds) and paired
  with the latest inter-block interval \<open>i\<close>, sorted by the comparator of the fee rate.
\<close>

definition minedSorted :: "real \<Rightarrow> real \<Rightarrow> MempoolTx list \<Rightarrow> MinedTx list" where
  "minedSorted ts i mempool =
     sortBy byFeeRate
       (map (\<lambda>y. \<lparr> size_tx = size_tx y, fee = fee y, descendantsize = descendantsize y,
                    descendantfees = descendantfees y, txid = txid y, feeRate = feeRate y,
                    cumSize = cumSize y, targetBlock = targetBlock y,
                    timestamp = ts, ibi = i \<rparr>) mempool)"

text \<open>
  Lines 101 to 113, the summary of one mined event. \<^verbatim>\<open>x[0].ibi\<close> on an empty array is a
  TypeError. The \<^verbatim>\<open>fee\<close> object has one key per quantile; the \<^verbatim>\<open>Date\<close> is given by its
  time value.
\<close>

definition summarise :: "MinedTx list \<Rightarrow> error + Summary" where
  "summarise x =
     (case x of
        [] \<Rightarrow> Inl TypeError
      | x0 # _ \<Rightarrow>
          Inr \<lparr> ibi_sum = ibi x0 / 60000,
                date_sum = timestamp x0,
                txs_sum = length x,
                blockSize_sum = sum_list (map size_tx x) / 1000000,
                timestamp_sum = timestamp x0,
                fee_sum = foldl (\<lambda>acc quantile. acc(quantile \<mapsto> meanBy (minQuant x quantile) feeRate))
                            Map.empty quantiles,
                minFeeTx_sum = minBy x feeRate \<rparr>)"

definition minedTxsSummary :: "real \<Rightarrow> real \<Rightarrow> MempoolTx list \<Rightarrow> error + Summary" where
  "minedTxsSummary ts i mempool = summarise (minedSorted ts i mempool)"

section \<open>Velocity and acceleration\<close>

text \<open>Lines 178 to 180: \<^verbatim>\<open>velocity(targetBlock).scan((v0, v1) => v1 - v0)\<close>, on the values
  the velocity stream of the target has emitted.\<close>

definition acceleration :: "jsnum list \<Rightarrow> jsnum list" where
  "acceleration velocity = scan (\<lambda>v0 v1. js_sub v1 v0) velocity"

section \<open>Fee differences and the recommendation\<close>

record Fee =
  feeRate_est :: jsnum
  timestamp_est :: real
  date_est :: real
  targetBlock_est :: real

record FeeDiff = Fee +
  diff :: jsnum

record MinDiff = FeeDiff +
  cumDiff :: jsnum
  valid :: bool

definition range_targets :: "real list" where
  "range_targets = [1, 2, 3, 4]"

text \<open>Lines 235 to 243: the \<^verbatim>\<open>diff\<close> of the entry at index \<open>i\<close>.\<close>

definition diffAt :: "Fee list \<Rightarrow> nat \<Rightarrow> jsnum" where
  "diffAt xs i =
     (if i > 0
      then js_div (js_sub (feeRate_est (xs ! i)) (feeRate_est (xs ! (i - 1))))
                  (js_sub (toNum (readAt range_targets i)) (toNum (readAt range_targets (i - 1))))
      else Num 0)"

definition withDiff :: "Fee list \<Rightarrow> FeeDiff list" where
  "withDiff xs =
     map (\<lambda>i. \<lparr> feeRate_est = feeRate_est (xs ! i), timestamp_est = timestamp_est (xs ! i),
                 date_est = date_est (xs ! i), targetBlock_est = targetBlock_est (xs ! i),
                 diff = diffAt xs i \<rparr>) [0..<length xs]"

definition feeDiff :: "Fee list \<Rightarrow> FeeDiff list" where
  "feeDiff xs = filter (\<lambda>x. js_le (diff x) (Num 0)) (withDiff xs)"

text \<open>
  Lines 255 to 269: the \<^verbatim>\<open>reduce\<close> of \<^verbatim>\<open>minDiff$\<close>, with the entry before the current one
  (\<^verbatim>\<open>xs[i - 1]\<close>, absent at index 0, where reading its \<^verbatim>\<open>feeRate\<close> is a TypeError) and the
  running \<^verbatim>\<open>cumDiff\<close>.
\<close>

fun markValid :: "real \<Rightarrow> FeeDiff option \<Rightarrow> jsnum \<Rightarrow> FeeDiff list \<Rightarrow> error + MinDiff list" where
  "markValid minSavingsRate prev cumDiff0 [] = Inr []"
| "markValid minSavingsRate prev cumDiff0 (x # xs) =
     (if js_eq (diff x) (Num 0)
      then (case markValid minSavingsRate (Some x) (js_add cumDiff0 (diff x)) xs of
              Inl e \<Rightarrow> Inl e
            | Inr acc \<Rightarrow>
                Inr (\<lparr> feeRate_est = feeRate_est x, timestamp_est = timestamp_est x,
                        date_est = date_est x, targetBlock_est = targetBlock_est x,
                        diff = diff x, cumDiff = js_add cumDiff0 (diff x), valid = True \<rparr> # acc))
      else (case prev of
              None \<Rightarrow> Inl TypeError
            | Some p \<Rightarrow>
                (case markValid minSavingsRate (Some x) (js_add cumDiff0 (diff x)) xs of
                   Inl e \<Rightarrow> Inl e
                 | Inr acc \<Rightarrow>
                     Inr (\<lparr> feeRate_est = feeRate_est x, timestamp_est = timestamp_est x,
                             date_est = date_est x, targetBlock_est = targetBlock_est x,
                             diff = diff x, cumDiff = js_add cumDiff0 (diff x),
                             valid = js_ge (js_div (diff x) (feeRate_est p)) (Num minSavingsRate) \<rparr>
                          # acc))))"

text \<open>Lines 272 and 273: the value the comparator of the final sort computes per entry.\<close>

definition cost :: "MinDiff \<Rightarrow> jsnum" where
  "cost a = js_div (js_sqrt (js_mul (diff a) (cumDiff a))) (Num (targetBlock_est a))"

text \<open>The comparator \<^verbatim>\<open>(b, a) => cost(a) - cost(b)\<close>: its first argument is named \<^verbatim>\<open>b\<close>.\<close>

definition byCost :: "MinDiff \<Rightarrow> MinDiff \<Rightarrow> jsnum" where
  "byCost b a = js_sub (cost a) (cost b)"

definition minDiff :: "real \<Rightarrow> FeeDiff list \<Rightarrow> error + MinDiff list" where
  "minDiff minSavingsRate x =
     (case markValid minSavingsRate None (Num 0) x of
        Inl e \<Rightarrow> Inl e
      | Inr acc \<Rightarrow> Inr (sortBy byCost (filter valid acc)))"

section \<open>Concrete inputs\<close>

text \<open>A raw entry that carries the aggregate fields under the spelling \<^verbatim>\<open>descendant...\<close>
  (\<open>raw_ant\<close>), and one that carries them under the spelling \<^verbatim>\<open>descendent...\<close> (\<open>raw_ent\<close>).\<close>

definition raw_ant :: "real \<Rightarrow> real \<Rightarrow> real \<Rightarrow> RawTx" where
  "raw_ant s dsize dfees =
     \<lparr> size_raw = s, fee_raw = dfees, descendentsize_raw = None, descendentfees_raw = None,
       descendantsize_raw = Some dsize, descendantfees_raw = Some dfees \<rparr>"

definition raw_ent :: "real \<Rightarrow> real \<Rightarrow> real \<Rightarrow> RawTx" where
  "raw_ent s dsize dfees =
     \<lparr> size_raw = s, fee_raw = dfees, descendentsize_raw = Some dsize,
       descendentfees_raw = Some dfees, descendantsize_raw = None, descendantfees_raw = None \<rparr>"

text \<open>Three transactions of sizes 600000, 500000 and 100000 with fee rates 3, 2 and 1,
  enumerated out of order.\<close>

definition txs_packing :: "(string \<times> RawTx) list" where
  "txs_packing =
     [(''b'', raw_ant 500000 500000 1000000), (''c'', raw_ant 100000 100000 100000),
      (''a'', raw_ant 600000 600000 1800000)]"

text \<open>Three transactions of fee rates 1, \<^verbatim>\<open>0 / 0\<close> and 2.\<close>

definition txs_nan :: "(string \<times> RawTx) list" where
  "txs_nan = [(''a'', raw_ant 100 100 100), (''b'', raw_ant 100 0 0), (''c'', raw_ant 100 100 200)]"

text \<open>Three transactions of fee rates 1, 2 and 1.\<close>

definition txs_ties :: "(string \<times> RawTx) list" where
  "txs_ties = [(''b'', raw_ant 100 100 100), (''c'', raw_ant 100 100 200), (''a'', raw_ant 100 100 100)]"

text \<open>A mined event of 1000 transactions with the fee rates 1000, 999, ..., 1.\<close>

definition mined1000 :: "MempoolTx list" where
  "mined1000 =
     map (\<lambda>k. \<lparr> size_tx = 250, fee = 1000, descendantsize = None, descendantfees = None,
                txid = replicate (Suc k) CHR ''a'', feeRate = Num (1000 - real k),
                cumSize = 250 * real (Suc k), targetBlock = 1 \<rparr>) [0..<1000]"

text \<open>A mined event of 501 transactions, already in descending order: 301 of fee rate 2,
  then 200 of fee rate 1.\<close>

definition mined501 :: "MempoolTx list" where
  "mined501 =
     map (\<lambda>k. \<lparr> size_tx = 250, fee = 1000, descendantsize = None, descendantfees = None,
                txid = replicate (Suc k) CHR ''a'', feeRate = Num (if k \<le> 300 then 2 else 1),
                cumSize = 250 * real (Suc k), targetBlock = 1 \<rparr>) [0..<501]"

text \<open>The four fee estimates with the fee rates 100, 95, 94 and 94.\<close>

definition fees_scenario :: "Fee list" where
  "fees_scenario =
     [\<lparr> feeRate_est = Num 100, timestamp_est = 0, date_est = 0, targetBlock_est = 1 \<rparr>,
      \<lparr> feeRate_est = Num 95, timestamp_est = 0, date_est = 0, targetBlock_est = 2 \<rparr>,
      \<lparr> feeRate_est = Num 94, timestamp_est = 0, date_est = 0, targetBlock_est = 3 \<rparr>,
      \<lparr> feeRate_est = Num 94, timestamp_est = 0, date_est = 0, targetBlock_est = 4 \<rparr>]"

section \<open>Facts about numbers and sorting\<close>

lemma js_sub_gt0: "a \<noteq> NaN \<Longrightarrow> b \<noteq> NaN \<Longrightarrow> js_gt (js_sub b a) (Num 0) = js_lt a b"
  by (cases a; cases b) (auto simp: js_gt_def js_sub_def)

lemma js_sub_self_not_gt0: "\<not> js_gt (js_sub a a) (Num 0)"
  by (cases a) (auto simp: js_gt_def js_sub_def)

lemma js_not_lt_ge: "a \<noteq> NaN \<Longrightarrow> b \<noteq> NaN \<Longrightarrow> (\<not> js_lt a b) = js_ge a b"
  by (cases a; cases b) (auto simp: js_ge_def js_le_def js_eq_def)

lemma js_lt_ge: "js_lt a b \<Longrightarrow> js_ge b a"
  by (simp add: js_ge_def js_le_def)

lemma js_ge_trans: "js_ge a b \<Longrightarrow> js_ge b c \<Longrightarrow> js_ge a c"
  by (cases a; cases b; cases c) (auto simp: js_ge_def js_le_def js_eq_def)

lemma length_insertBy: "length (insertBy c x xs) = Suc (length xs)"
  by (induction xs) auto

lemma length_sortBy: "length (sortBy c xs) = length xs"
  by (induction xs) (auto simp: length_insertBy)

lemma set_insertBy: "set (insertBy c x xs) = insert x (set xs)"
  by (induction xs) auto

lemma set_sortBy: "set (sortBy c xs) = set xs"
  by (induction xs) (auto simp: set_insertBy)

lemma mset_insertBy: "mset (insertBy c x xs) = add_mset x (mset xs)"
  by (induction xs) auto

lemma mset_sortBy: "mset (sortBy c xs) = mset xs"
  by (induction xs) (auto simp: mset_insertBy)

text \<open>Inserting into a list that descends by fee rate keeps it descending, when no fee
  rate is NaN.\<close>

lemma sorted_insertBy:
  assumes "feeRate x \<noteq> NaN" "\<forall>y\<in>set xs. feeRate y \<noteq> NaN"
    and "sorted_wrt (\<lambda>a b. js_ge (feeRate a) (feeRate b)) xs"
  shows "sorted_wrt (\<lambda>a b. js_ge (feeRate a) (feeRate b)) (insertBy byFeeRate x xs)"
  using assms
proof (induction xs)
  case Nil
  then show ?case by simp
next
  case (Cons y ys)
  show ?case
  proof (cases "js_lt (feeRate x) (feeRate y)")
    case True
    then have "js_ge (feeRate y) (feeRate x)"
      by (rule js_lt_ge)
    with True Cons show ?thesis
      by (auto simp: byFeeRate_def js_sub_gt0 set_insertBy)
  next
    case False
    then have xy: "js_ge (feeRate x) (feeRate y)"
      using Cons.prems by (simp add: js_not_lt_ge)
    have "\<forall>z\<in>set ys. js_ge (feeRate x) (feeRate z)"
      using xy Cons.prems(3) by (auto intro: js_ge_trans)
    with False xy Cons.prems show ?thesis
      by (simp add: byFeeRate_def js_sub_gt0)
  qed
qed

lemma sorted_sortBy:
  "\<forall>y\<in>set xs. feeRate y \<noteq> NaN \<Longrightarrow>
   sorted_wrt (\<lambda>a b. js_ge (feeRate a) (feeRate b)) (sortBy byFeeRate xs)"
  by (induction xs) (auto simp: sorted_insertBy set_sortBy)

text \<open>The sort is stable: the elements of one fee rate keep their order.\<close>

lemma filter_insertBy:
  "filter (\<lambda>t. feeRate t = r) (insertBy byFeeRate x xs) =
   (if feeRate x = r then x # filter (\<lambda>t. feeRate t = r) xs else filter (\<lambda>t. feeRate t = r) xs)"
proof (induction xs)
  case Nil
  then show ?case by simp
next
  case (Cons y ys)
  have "js_gt (byFeeRate x y) (Num 0) \<Longrightarrow> feeRate y \<noteq> feeRate x"
    using js_sub_self_not_gt0 [of "feeRate x"] by (auto simp: byFeeRate_def)
  with Cons show ?case
    by auto
qed

lemma sortBy_stable:
  "filter (\<lambda>t. feeRate t = r) (sortBy byFeeRate xs) = filter (\<lambda>t. feeRate t = r) xs"
  by (induction xs) (auto simp: filter_insertBy)

text \<open>A list the comparator already accepts is left as it is.\<close>

lemma sortBy_sorted:
  "sorted_wrt (\<lambda>a b. \<not> js_gt (c a b) (Num 0)) xs \<Longrightarrow> sortBy c xs = xs"
proof (induction xs)
  case Nil
  then show ?case by simp
next
  case (Cons x xs)
  then have "sortBy c xs = xs" by simp
  moreover have "insertBy c x xs = x # xs"
    using Cons.prems by (cases xs) auto
  ultimately show ?case by simp
qed

section \<open>Facts about the packing\<close>

lemma sortByFee_pack:
  "sortByFee bes txs = pack bes (0, 1, 1) (sortBy byFeeRate (map toFeeTx txs))"
  by (simp add: sortByFee_def sortByFeeFrom_def)

lemma pack_Cons:
  assumes "snd (packStep bes s x) = s'"
  shows "pack bes s (x # xs) = fst (packStep bes s x) # pack bes s' xs"
  using assms by (cases "packStep bes s x") auto

lemma length_pack: "length (pack bes s xs) = length xs"
  by (induction xs arbitrary: s) (auto simp: packStep_def Let_def split: prod.splits)

lemma map_feeRate_pack: "map feeRate (pack bes s xs) = map feeRate xs"
  by (induction xs arbitrary: s) (auto simp: packStep_def Let_def split: prod.splits)

lemma map_size_pack: "map size_tx (pack bes s xs) = map size_tx xs"
  by (induction xs arbitrary: s) (auto simp: packStep_def Let_def split: prod.splits)

lemma map_txid_pack: "map txid (pack bes s xs) = map txid xs"
  by (induction xs arbitrary: s) (auto simp: packStep_def Let_def split: prod.splits)

lemma map_key_pack:
  "map (\<lambda>t. (txid t, feeRate t)) (pack bes s xs) = map (\<lambda>t. (txid t, feeRate t)) xs"
  by (induction xs arbitrary: s) (auto simp: packStep_def Let_def split: prod.splits)

lemma map_txid_toFeeTx: "map txid (map toFeeTx txs) = map fst txs"
  by (induction txs) (auto simp: toFeeTx_def)

text \<open>\<^verbatim>\<open>cumSize\<close> is the running sum of the sizes, from the starting value.\<close>

lemma cumSize_pack:
  "k < length xs \<Longrightarrow>
   cumSize (pack bes (c, t, n) xs ! k) = c + sum_list (map size_tx (take (Suc k) xs))"
proof (induction xs arbitrary: c t n k)
  case Nil
  then show ?case by simp
next
  case (Cons x xs)
  show ?case
  proof (cases k)
    case 0
    then show ?thesis
      by (simp add: packStep_def Let_def)
  next
    case (Suc j)
    with Cons.prems have "j < length xs" by simp
    from Cons.IH [OF this] Suc show ?thesis
      by (simp add: packStep_def Let_def)
  qed
qed

lemma sorted_cumSize_pack:
  "\<forall>x\<in>set xs. 0 \<le> size_tx x \<Longrightarrow>
   sorted_wrt (\<le>) (map cumSize (pack bes (c, t, n) xs)) \<and>
   (\<forall>y\<in>set (pack bes (c, t, n) xs). c \<le> cumSize y)"
proof (induction xs arbitrary: c t n)
  case Nil
  then show ?case by simp
next
  case (Cons x xs)
  obtain c' t' n' where step: "snd (packStep bes (c, t, n) x) = (c', t', n')"
    by (metis prod_cases3)
  have c': "c' = c + size_tx x" "cumSize (fst (packStep bes (c, t, n) x)) = c'"
    using step by (auto simp: packStep_def Let_def)
  note unfold = pack_Cons [OF step]
  from Cons.prems have "\<forall>x\<in>set xs. 0 \<le> size_tx x" and x0: "0 \<le> size_tx x"
    by simp_all
  from Cons.IH [OF this(1), of c' t' n']
  have IH: "sorted_wrt (\<le>) (map cumSize (pack bes (c', t', n') xs))"
    "\<forall>y\<in>set (pack bes (c', t', n') xs). c' \<le> cumSize y"
    by simp_all
  show ?case
    unfolding unfold using IH c' x0 by auto
qed

text \<open>One call of the callback raises \<^verbatim>\<open>targetBlock\<close> by one or leaves it.\<close>

lemma targetBlock_pack_head:
  "pack bes (c, t, n) xs = y # ys \<Longrightarrow> targetBlock y - t \<in> {0, 1}"
  by (cases xs) (auto simp: packStep_def Let_def)

lemma targetBlock_pack:
  "Suc k < length xs \<Longrightarrow>
   targetBlock (pack bes (c, t, n) xs ! Suc k) - targetBlock (pack bes (c, t, n) xs ! k) \<in> {0, 1}"
proof (induction xs arbitrary: c t n k)
  case Nil
  then show ?case by simp
next
  case (Cons x xs)
  obtain c' t' n' where step: "snd (packStep bes (c, t, n) x) = (c', t', n')"
    by (metis prod_cases3)
  have t': "targetBlock (fst (packStep bes (c, t, n) x)) = t'"
    using step by (auto simp: packStep_def Let_def)
  note unfold = pack_Cons [OF step]
  show ?case
  proof (cases k)
    case 0
    from Cons.prems 0 have "length (pack bes (c', t', n') xs) \<noteq> 0"
      by (simp add: length_pack)
    then obtain y ys where ys: "pack bes (c', t', n') xs = y # ys"
      by (cases "pack bes (c', t', n') xs") auto
    from targetBlock_pack_head [OF ys] show ?thesis
      using 0 unfold ys t' by simp
  next
    case (Suc j)
    with Cons.prems have "Suc j < length xs" by simp
    from Cons.IH [OF this, of c' t' n'] show ?thesis
      using Suc unfold by simp
  qed
qed

lemma feeRate_pack_nth:
  "k < length xs \<Longrightarrow> feeRate (pack bes s xs ! k) = feeRate (xs ! k)"
  using map_feeRate_pack [of bes s xs]
  by (metis length_pack nth_map)

lemma sorted_feeRate_pack:
  "sorted_wrt (\<lambda>a b. js_ge (feeRate a) (feeRate b)) xs \<Longrightarrow>
   sorted_wrt (\<lambda>a b. js_ge (feeRate a) (feeRate b)) (pack bes s xs)"
  by (simp add: sorted_wrt_iff_nth_less length_pack feeRate_pack_nth)

lemma mset_txid_sortByFee: "mset (map txid (sortByFee bes txs)) = mset (map fst txs)"
proof -
  have "mset (map txid (sortByFee bes txs)) =
        image_mset txid (mset (sortBy byFeeRate (map toFeeTx txs)))"
    by (simp only: sortByFee_pack map_txid_pack mset_map)
  also have "\<dots> = mset (map txid (map toFeeTx txs))"
    by (simp only: mset_sortBy mset_map)
  finally show ?thesis
    by (simp only: map_txid_toFeeTx)
qed

lemma cumSize_sortByFee:
  assumes "k < length (sortByFee bes txs)"
  shows "cumSize (sortByFee bes txs ! k) =
         sum_list (map size_tx (take (Suc k) (sortByFee bes txs)))"
proof -
  let ?s = "sortBy byFeeRate (map toFeeTx txs)"
  have k: "k < length ?s"
    using assms by (simp only: sortByFee_pack length_pack)
  have "map size_tx (take (Suc k) (pack bes (0, 1, 1) ?s)) = map size_tx (take (Suc k) ?s)"
    by (simp only: take_map [symmetric] map_size_pack)
  with cumSize_pack [OF k, of bes 0 1 1] show ?thesis
    by (simp only: sortByFee_pack add_0)
qed

section \<open>Facts about the quantile tails\<close>

lemma minQuant_nths: "minQuant xs q = nths xs {i. real i > real (length xs) * (1 - q)}"
  by (simp add: minQuant_def nths_def)

text \<open>No index exceeds \<^verbatim>\<open>xs.length * (1 - quantile)\<close> when \<^verbatim>\<open>xs.length * quantile\<close> is at
  most one.\<close>

lemma minQuant_empty:
  assumes "real (length xs) * q \<le> 1"
  shows "minQuant xs q = []"
proof -
  have "\<not> real (snd p) > real (length xs) * (1 - q)"
    if "p \<in> set (zip xs [0..<length xs])" for p
  proof -
    from that have "snd p < length xs"
      by (auto simp: in_set_zip)
    then have "real (snd p) \<le> real (length xs) - 1"
      by linarith
    moreover have "real (length xs) * (1 - q) \<ge> real (length xs) - 1"
      using assms by (simp add: algebra_simps)
    ultimately show ?thesis
      by linarith
  qed
  then have "filter (\<lambda>p. real (snd p) > real (length xs) * (1 - q)) (zip xs [0..<length xs]) = []"
    by (simp add: filter_empty_conv)
  then show ?thesis
    by (simp add: minQuant_def)
qed

text \<open>The tail \<open>minQuant\<close> selects is one element shorter than \<open>\<lceil>n * q\<rceil>\<close>.\<close>

lemma minQuant_drop:
  assumes "0 < q" "q \<le> 1"
  shows "minQuant xs q = drop (Suc (length xs) - nat \<lceil>real (length xs) * q\<rceil>) xs"
proof -
  let ?n = "length xs"
  let ?k = "\<lceil>real ?n * q\<rceil>"
  have "0 \<le> real ?n * q"
    using assms by simp
  then have k0: "0 \<le> ?k"
    by (simp add: zero_le_ceiling)
  have "real ?n * q \<le> real ?n"
    using assms by (simp add: mult_left_le)
  then have kn: "?k \<le> int ?n"
    by (simp add: ceiling_le_iff)
  have "{i. real i > real ?n * (1 - q)} = {i. i \<ge> Suc ?n - nat ?k}"
  proof (rule Collect_cong)
    fix i :: nat
    have "real i > real ?n * (1 - q) \<longleftrightarrow> real_of_int (int ?n - int i) < real ?n * q"
      by (simp add: algebra_simps)
    also have "\<dots> \<longleftrightarrow> int ?n - int i < ?k"
      by (simp only: less_ceiling_iff)
    also have "\<dots> \<longleftrightarrow> i \<ge> Suc ?n - nat ?k"
      using k0 kn by linarith
    finally show "real i > real ?n * (1 - q) \<longleftrightarrow> i \<ge> Suc ?n - nat ?k" .
  qed
  then show ?thesis
    by (simp add: minQuant_nths drop_eq_nths)
qed

lemma length_minedSorted: "length (minedSorted ts i mempool) = length mempool"
  by (simp add: minedSorted_def length_sortBy)

lemma foldl_upd:
  "foldl (\<lambda>acc k. acc(k \<mapsto> f k)) m ks q = (if q \<in> set ks then Some (f q) else m q)"
  by (induction ks arbitrary: m) auto

lemma fee_sum_quantile:
  assumes "q \<in> set quantiles" "x \<noteq> []"
  shows "\<exists>s. summarise x = Inr s \<and> fee_sum s q = Some (meanBy (minQuant x q) feeRate)"
  using assms by (cases x) (simp_all add: summarise_def foldl_upd)

lemma fee_sum_empty_tail:
  assumes "mempool \<noteq> []" "q \<in> set quantiles" "real (length mempool) * q \<le> 1"
  shows "\<exists>s. minedTxsSummary ts i mempool = Inr s \<and> fee_sum s q = Some NaN"
proof -
  let ?x = "minedSorted ts i mempool"
  have len: "length ?x = length mempool"
    by (rule length_minedSorted)
  then have ne: "?x \<noteq> []"
    using assms(1) by (metis length_0_conv)
  have emp: "minQuant ?x q = []"
    using assms(3) len by (simp add: minQuant_empty)
  obtain s where "summarise ?x = Inr s" "fee_sum s q = Some (meanBy (minQuant ?x q) feeRate)"
    using fee_sum_quantile [OF assms(2) ne] by blast
  then show ?thesis
    using emp by (simp add: minedTxsSummary_def meanBy_def)
qed

lemma length_mined1000: "length mined1000 = 1000"
  by (simp add: mined1000_def)

lemma minedSorted_mined1000:
  "minedSorted ts i mined1000 =
     map (\<lambda>k. \<lparr> size_tx = 250, fee = 1000, descendantsize = None, descendantfees = None,
                txid = replicate (Suc k) CHR ''a'', feeRate = Num (1000 - real k),
                cumSize = 250 * real (Suc k), targetBlock = 1, timestamp = ts, ibi = i \<rparr>)
         [0..<1000]"
proof -
  have "sorted_wrt (<) [0..<1000::nat]"
    by (rule sorted_wrt_upt)
  then have "sorted_wrt (\<lambda>a b. \<not> js_gt (byFeeRate a b) (Num 0))
     (map (\<lambda>k. \<lparr> size_tx = 250, fee = 1000, descendantsize = None, descendantfees = None,
                txid = replicate (Suc k) CHR ''a'', feeRate = Num (1000 - real k),
                cumSize = 250 * real (Suc k), targetBlock = 1, timestamp = ts, ibi = i \<rparr>)
          [0..<1000])"
    unfolding sorted_wrt_map
    by (rule sorted_wrt_mono_rel [rotated]) (simp add: byFeeRate_def js_sub_def js_gt_def)
  then show ?thesis
    by (simp add: minedSorted_def mined1000_def sortBy_sorted comp_def)
qed





lemma length_mined501: "length mined501 = 501"
  by (simp add: mined501_def)






section \<open>Facts about the recommendation\<close>

text \<open>A non-positive \<^verbatim>\<open>diff\<close> over a positive fee rate never reaches a positive
  \<^verbatim>\<open>minSavingsRate\<close>.\<close>

lemma not_valid_negative:
  "js_le d (Num 0) \<Longrightarrow> 0 < r \<Longrightarrow> 0 < m \<Longrightarrow> \<not> js_ge (js_div d (Num r)) (Num m)"
proof (cases d)
  case (Num x)
  assume "js_le d (Num 0)" "0 < r" "0 < m"
  with Num have "x \<le> 0"
    by (auto simp: js_le_def js_eq_def)
  then have "x / r \<le> 0"
    using \<open>0 < r\<close> by (simp add: divide_le_0_iff)
  then have "x / r < m"
    using \<open>0 < m\<close> by linarith
  then show ?thesis
    using Num \<open>0 < r\<close> by (auto simp: js_ge_def js_le_def js_eq_def)
qed (auto simp: js_ge_def js_le_def js_eq_def)

lemma markValid_zero:
  assumes "\<forall>d\<in>set ds. js_le (diff d) (Num 0) \<and> (\<exists>r>0. feeRate_est d = Num r)"
      and "prev = None \<longrightarrow> ds = [] \<or> diff (hd ds) = Num 0"
      and "\<forall>p. prev = Some p \<longrightarrow> (\<exists>r>0. feeRate_est p = Num r)"
      and "0 < m"
  shows "\<exists>ys. markValid m prev c ds = Inr ys \<and> (\<forall>e\<in>set ys. valid e \<longrightarrow> diff e = Num 0)"
  using assms
proof (induction ds arbitrary: prev c)
  case Nil
  then show ?case by simp
next
  case (Cons d ds)
  have rest: "\<forall>d\<in>set ds. js_le (diff d) (Num 0) \<and> (\<exists>r>0. feeRate_est d = Num r)"
    using Cons.prems(1) by simp
  obtain r where r: "0 < r" "feeRate_est d = Num r"
    using Cons.prems(1) by auto
  have "\<exists>ys. markValid m (Some d) (js_add c (diff d)) ds = Inr ys \<and>
          (\<forall>e\<in>set ys. valid e \<longrightarrow> diff e = Num 0)"
    using r Cons.prems(4) by (intro Cons.IH [OF rest]) auto
  then obtain ys where ys: "markValid m (Some d) (js_add c (diff d)) ds = Inr ys"
      "\<forall>e\<in>set ys. valid e \<longrightarrow> diff e = Num 0"
    by blast
  show ?case
  proof (cases "js_eq (diff d) (Num 0)")
    case True
    then have "diff d = Num 0"
      by (simp add: js_eq_def)
    with True ys show ?thesis
      by simp
  next
    case False
    then have "diff d \<noteq> Num 0"
      by (simp add: js_eq_def)
    with Cons.prems(2) obtain p where p: "prev = Some p"
      by (cases prev) auto
    with Cons.prems(3) obtain q where q: "0 < q" "feeRate_est p = Num q"
      by auto
    have "js_le (diff d) (Num 0)"
      using Cons.prems(1) by simp
    from not_valid_negative [OF this q(1) Cons.prems(4)]
    show ?thesis
      using False p q ys by simp
  qed
qed

lemma feeDiff_le0: "d \<in> set (feeDiff xs) \<Longrightarrow> js_le (diff d) (Num 0)"
  by (simp add: feeDiff_def)

lemma feeDiff_feeRate: "d \<in> set (feeDiff xs) \<Longrightarrow> feeRate_est d \<in> feeRate_est ` set xs"
  by (auto simp: feeDiff_def withDiff_def)

text \<open>The entry at index 0 has \<^verbatim>\<open>diff\<close> 0 and passes the filter, so it heads the list.\<close>

lemma feeDiff_hd: "feeDiff xs = [] \<or> diff (hd (feeDiff xs)) = Num 0"
proof (cases xs)
  case Nil
  then show ?thesis
    by (simp add: feeDiff_def withDiff_def)
next
  case (Cons x rest)
  then have "0 < length xs"
    by simp
  from upt_conv_Cons [OF this] show ?thesis
    by (simp add: feeDiff_def withDiff_def diffAt_def js_le_def js_eq_def)
qed

section \<open>The claims\<close>

subsection \<open>C1: acceleration\<close>

text \<open>
  Claim C1 says that the acceleration stream is the first difference of the velocity
  stream: \<open>v1, v2 - v1, v3 - v2, ...\<close>. The \<^verbatim>\<open>scan\<close> of line 180 passes the value it
  emitted last, not the previous velocity, as \<^verbatim>\<open>v0\<close>: on the velocities 1, 3, 6 it
  emits 1, 2, 4, where the third difference \<open>6 - 3\<close> is 3.
\<close>

theorem acceleration_scans_its_own_output:
  "acceleration [Num 1, Num 3, Num 6] = [Num 1, Num 2, Num 4] \<and> js_sub (Num 6) (Num 3) = Num 3"
  by (simp add: acceleration_def js_sub_def)

subsection \<open>C2: the recommendation on the fee rates 100, 95, 94, 94\<close>

text \<open>
  Claim C2 says that, on the fee rates 100, 95, 94, 94 with \<^verbatim>\<open>minSavingsRate\<close> 0.02, the
  published list holds exactly the targets 2 and 4. The list \<open>minDiff\<close> returns holds the
  targets 1 and 4.
\<close>

theorem minDiff_scenario_publishes_1_and_4:
  "map_sum id (map targetBlock_est) (minDiff (2/100) (feeDiff fees_scenario)) = Inr [1, 4] \<and>
   map_sum id (\<lambda>ys. set (map targetBlock_est ys)) (minDiff (2/100) (feeDiff fees_scenario))
     \<noteq> Inr {2, 4}"
  by (simp add: minDiff_def feeDiff_def withDiff_def fees_scenario_def diffAt_def readAt_def
      range_targets_def js_sub_def js_le_def js_eq_def js_ge_def js_gt_def byCost_def cost_def
      doubleton_eq_iff)

text \<open>
  Claim C2, amended: on these fee estimates \<open>feeDiff\<close> computes the diffs 0, -5, -1, 0 and
  retains all four entries; the entry at target 3 is marked invalid and is not published;
  the entries at targets 1 and 4, whose \<^verbatim>\<open>diff\<close> is 0, are marked valid and are published.
\<close>

theorem minDiff_scenario:
  "map diff (feeDiff fees_scenario) = [Num 0, Num (- 5), Num (- 1), Num 0] \<and>
   (\<exists>acc ys.
      markValid (2/100) None (Num 0) (feeDiff fees_scenario) = Inr acc \<and>
      map (\<lambda>e. (targetBlock_est e, valid e)) (filter (\<lambda>e. targetBlock_est e \<noteq> 2) acc)
        = [(1, True), (3, False), (4, True)] \<and>
      minDiff (2/100) (feeDiff fees_scenario) = Inr ys \<and>
      1 \<in> set (map targetBlock_est ys) \<and>
      4 \<in> set (map targetBlock_est ys) \<and>
      3 \<notin> set (map targetBlock_est ys))"
  by (simp add: minDiff_def feeDiff_def withDiff_def fees_scenario_def diffAt_def readAt_def
      range_targets_def js_sub_def js_le_def js_eq_def js_ge_def js_gt_def byCost_def cost_def)

subsection \<open>C3: only entries of diff 0 are published\<close>

text \<open>
  Claim C3: for fee estimates with strictly positive fee rates and a positive
  \<^verbatim>\<open>minSavingsRate\<close>, \<open>minDiff\<close> returns a list, and every entry of it has \<^verbatim>\<open>diff\<close> 0: an
  entry of negative \<^verbatim>\<open>diff\<close> is marked invalid and filtered out.
\<close>

theorem minDiff_publishes_zero_diff_only:
  assumes "\<forall>f\<in>set fees. \<exists>r>0. feeRate_est f = Num r" and "0 < minSavingsRate"
  shows "\<exists>ys. minDiff minSavingsRate (feeDiff fees) = Inr ys \<and> (\<forall>e\<in>set ys. diff e = Num 0)"
proof -
  have "\<forall>d\<in>set (feeDiff fees). js_le (diff d) (Num 0) \<and> (\<exists>r>0. feeRate_est d = Num r)"
    using assms(1) feeDiff_le0 feeDiff_feeRate by fastforce
  from markValid_zero [OF this _ _ assms(2), of None "Num 0"] feeDiff_hd [of fees]
  obtain acc where acc: "markValid minSavingsRate None (Num 0) (feeDiff fees) = Inr acc"
      "\<forall>e\<in>set acc. valid e \<longrightarrow> diff e = Num 0"
    by auto
  have "set (sortBy byCost (filter valid acc)) = set (filter valid acc)"
    by (rule set_sortBy)
  then show ?thesis
    using acc by (simp add: minDiff_def)
qed

text \<open>The theorem of C3 on the fee rates 100, 95, 94, 94 and the rate 0.02: the two
  published entries have \<^verbatim>\<open>diff\<close> 0.\<close>

theorem minDiff_publishes_zero_diff_only_witness:
  "\<exists>ys. minDiff (2/100) (feeDiff fees_scenario) = Inr ys \<and> length ys = 2 \<and>
        (\<forall>e\<in>set ys. diff e = Num 0)"
proof -
  have len: "map_sum id length (minDiff (2/100) (feeDiff fees_scenario)) = Inr 2"
    by (simp add: minDiff_def feeDiff_def withDiff_def fees_scenario_def diffAt_def readAt_def
        range_targets_def js_sub_def js_le_def js_eq_def js_ge_def js_gt_def byCost_def cost_def)
  have pos: "\<forall>f\<in>set fees_scenario. \<exists>r>0. feeRate_est f = Num r"
    by (simp add: fees_scenario_def)
  from minDiff_publishes_zero_diff_only [OF pos, of "2/100"] len show ?thesis
    by auto
qed

subsection \<open>C4: the fee rate of an entry spelled \<^verbatim>\<open>descendent...\<close>\<close>

text \<open>
  Claim C4 says that, for entries that carry \<^verbatim>\<open>descendentsize\<close> and \<^verbatim>\<open>descendentfees\<close>,
  \<^verbatim>\<open>feeRate\<close> is the descendant fees over the descendant size. Line 50 reads the other
  spelling: on an entry with \<^verbatim>\<open>descendentsize\<close> 250 and \<^verbatim>\<open>descendentfees\<close> 1000 the stored
  fields are 250 and 1000 and the fee rate is NaN, not 4.
\<close>

theorem sortByFee_descendent_feeRate_NaN:
  "map descendantsize (sortByFee 1000000 [(''a'', raw_ent 250 250 1000)]) = [Some 250] \<and>
   map descendantfees (sortByFee 1000000 [(''a'', raw_ent 250 250 1000)]) = [Some 1000] \<and>
   map feeRate (sortByFee 1000000 [(''a'', raw_ent 250 250 1000)]) = [NaN] \<and>
   js_div (Num 1000) (Num 250) = Num 4"
  by (simp add: sortByFee_pack toFeeTx_def raw_ent_def packStep_def)

subsection \<open>C5: the invariants of the packed sequence\<close>

text \<open>
  Claim C5 says that, for every input with non-negative sizes, the fee rate is
  non-increasing along the packed sequence. An entry whose descendant fees and size are
  both 0 has the fee rate NaN, which the comparator orders against nothing: the fee
  rates 1, NaN, 2 are packed in this order.
\<close>

theorem sortByFee_NaN_not_descending:
  "map feeRate (sortByFee 1000000 txs_nan) = [Num 1, NaN, Num 2] \<and>
   \<not> sorted_wrt (\<lambda>a b. js_ge (feeRate a) (feeRate b)) (sortByFee 1000000 txs_nan)"
  by (simp add: sortByFee_pack txs_nan_def raw_ant_def toFeeTx_def byFeeRate_def js_sub_def
      js_gt_def packStep_def js_ge_def js_le_def js_eq_def)

text \<open>
  Claim C5, amended: for every input with non-negative sizes in which no entry has the
  fee rate NaN, the packed sequence holds the transactions of the input; \<^verbatim>\<open>cumSize\<close> is
  the prefix sum of the sizes along the sequence and is non-decreasing; \<^verbatim>\<open>targetBlock\<close>
  rises by 0 or 1 from one transaction to the next; and the fee rate is non-increasing.
\<close>

theorem sortByFee_invariants:
  assumes sizes: "\<forall>p\<in>set txs. 0 \<le> size_raw (snd p)"
      and rates: "\<forall>p\<in>set txs. feeRate (toFeeTx p) \<noteq> NaN"
  shows "mset (map txid (sortByFee bes txs)) = mset (map fst txs) \<and>
         (\<forall>k<length (sortByFee bes txs).
            cumSize (sortByFee bes txs ! k) =
              sum_list (map size_tx (take (Suc k) (sortByFee bes txs)))) \<and>
         sorted_wrt (\<le>) (map cumSize (sortByFee bes txs)) \<and>
         (\<forall>k. Suc k < length (sortByFee bes txs) \<longrightarrow>
            targetBlock (sortByFee bes txs ! Suc k) - targetBlock (sortByFee bes txs ! k)
              \<in> {0, 1}) \<and>
         sorted_wrt (\<lambda>a b. js_ge (feeRate a) (feeRate b)) (sortByFee bes txs)"
proof -
  let ?s = "sortBy byFeeRate (map toFeeTx txs)"
  have "\<forall>x\<in>set ?s. 0 \<le> size_tx x"
    using sizes by (auto simp: set_sortBy toFeeTx_def split: prod.splits)
  from sorted_cumSize_pack [OF this, of bes 0 1 1]
  have cum: "sorted_wrt (\<le>) (map cumSize (sortByFee bes txs))"
    by (simp only: sortByFee_pack)
  have tb: "\<forall>k. Suc k < length (sortByFee bes txs) \<longrightarrow>
           targetBlock (sortByFee bes txs ! Suc k) - targetBlock (sortByFee bes txs ! k) \<in> {0, 1}"
    using targetBlock_pack [of _ ?s bes 0 1 1]
    by (simp only: sortByFee_pack length_pack) blast
  have "\<forall>y\<in>set (map toFeeTx txs). feeRate y \<noteq> NaN"
    using rates by simp
  then have "sorted_wrt (\<lambda>a b. js_ge (feeRate a) (feeRate b)) ?s"
    by (rule sorted_sortBy)
  then have fr: "sorted_wrt (\<lambda>a b. js_ge (feeRate a) (feeRate b)) (sortByFee bes txs)"
    unfolding sortByFee_pack by (rule sorted_feeRate_pack)
  from mset_txid_sortByFee cumSize_sortByFee cum tb fr show ?thesis
    by blast
qed

text \<open>The theorem of C5 on three transactions of sizes 600000, 500000 and 100000 and a
  block of 1000000: they are packed as \<open>a, b, c\<close> with the cumulative sizes 600000,
  1100000, 1200000 and the target blocks 1, 2, 2.\<close>

theorem sortByFee_invariants_witness:
  "map txid (sortByFee 1000000 txs_packing) = [''a'', ''b'', ''c''] \<and>
   map cumSize (sortByFee 1000000 txs_packing) = [600000, 1100000, 1200000] \<and>
   map targetBlock (sortByFee 1000000 txs_packing) = [1, 2, 2] \<and>
   mset (map txid (sortByFee 1000000 txs_packing)) = mset (map fst txs_packing) \<and>
   sorted_wrt (\<le>) (map cumSize (sortByFee 1000000 txs_packing)) \<and>
   sorted_wrt (\<lambda>a b. js_ge (feeRate a) (feeRate b)) (sortByFee 1000000 txs_packing)"
proof -
  have sizes: "\<forall>p\<in>set txs_packing. 0 \<le> size_raw (snd p)"
    by (simp add: txs_packing_def raw_ant_def)
  have rates: "\<forall>p\<in>set txs_packing. feeRate (toFeeTx p) \<noteq> NaN"
    by (simp add: txs_packing_def raw_ant_def toFeeTx_def)
  have "map txid (sortByFee 1000000 txs_packing) = [''a'', ''b'', ''c''] \<and>
        map cumSize (sortByFee 1000000 txs_packing) = [600000, 1100000, 1200000] \<and>
        map targetBlock (sortByFee 1000000 txs_packing) = [1, 2, 2]"
    by (simp add: sortByFee_pack txs_packing_def raw_ant_def toFeeTx_def byFeeRate_def
        js_sub_def js_gt_def packStep_def)
  with sortByFee_invariants [OF sizes rates, of 1000000] show ?thesis
    by blast
qed

subsection \<open>C6: a single transaction larger than the block\<close>

text \<open>
  Claim C6 says that a single transaction whose size exceeds \<^verbatim>\<open>blockEffectiveSize\<close> gets
  \<^verbatim>\<open>targetBlock\<close> 1. A transaction of size 2000000 in a block of 1000000 gets 2.
\<close>

theorem sortByFee_single_oversized_counterexample:
  "map targetBlock (sortByFee 1000000 [(''a'', raw_ant 2000000 2000000 4000000)]) = [2] \<and>
   map targetBlock (sortByFee 1000000 [(''a'', raw_ant 2000000 2000000 4000000)]) \<noteq> [1]"
  by (simp add: sortByFee_pack toFeeTx_def raw_ant_def packStep_def)

text \<open>
  Claim C6, amended: for a mempool of a single transaction whose size exceeds
  \<^verbatim>\<open>blockEffectiveSize\<close>, \<open>sortByFee\<close> assigns the transaction \<^verbatim>\<open>targetBlock\<close> 2, and the
  callback leaves the state \<^verbatim>\<open>cumSize = size, targetBlock = 2, n = 2\<close>: the counter is
  incremented once.
\<close>

theorem sortByFee_single_oversized:
  assumes "bes < size_raw e"
  shows "map targetBlock (sortByFee bes [(k, e)]) = [2] \<and>
         snd (packStep bes (0, 1, 1) (toFeeTx (k, e))) = (size_raw e, 2, 2)"
  using assms by (simp add: sortByFee_pack toFeeTx_def packStep_def Let_def)

theorem sortByFee_single_oversized_witness:
  "map targetBlock (sortByFee 1000000 [(''a'', raw_ant 1000001 1000001 4000000)]) = [2] \<and>
   snd (packStep 1000000 (0, 1, 1) (toFeeTx (''a'', raw_ant 1000001 1000001 4000000)))
     = (1000001, 2, 2)"
  using sortByFee_single_oversized [of 1000000 "raw_ant 1000001 1000001 4000000" "''a''"]
  by (simp add: raw_ant_def)

subsection \<open>C7: the threshold of a mined block\<close>

text \<open>
  Claim C7: a removed set is forwarded as a mined block exactly when it holds more than
  500 transactions; one of exactly 500 is not forwarded, one of 501 is.
\<close>

theorem minedTxs_threshold:
  "(txs \<in> set (minedTxs removed)) = (txs \<in> set removed \<and> 500 < length txs) \<and>
   (length txs = 500 \<longrightarrow> minedTxs [txs] = []) \<and>
   (length txs = 501 \<longrightarrow> minedTxs [txs] = [txs])"
  by (simp add: minedTxs_def)

theorem minedTxs_threshold_witness:
  "minedTxs [take 500 mined501] = [] \<and>
   minedTxs [mined501] = [mined501] \<and>
   mined501 \<in> set (minedTxs [take 500 mined501, mined501]) \<and>
   take 500 mined501 \<notin> set (minedTxs [take 500 mined501, mined501])"
  using minedTxs_threshold [of "take 500 mined501" "[take 500 mined501, mined501]"]
    minedTxs_threshold [of mined501 "[take 500 mined501, mined501]"]
  by (simp add: length_mined501)

subsection \<open>C8: the size of the quantile tail\<close>




text \<open>
  Where \<open>n * q\<close> is an integer the tail is one entry shorter than \<open>n * q\<close>: on a mined event
  of 1000 transactions with the fee rates 1000, ..., 1, the last entry has the mean 1 and
  the published value for \<open>q = 0.001\<close> is NaN, and the tail for \<open>q = 0.4\<close> has 399 entries.
\<close>

lemma minQuant_one_entry_short:
  "length mined1000 = 1000 \<and>
   nat \<lceil>real (length mined1000) * (1/1000)\<rceil> = 1 \<and>
   meanBy (drop (length mined1000 - 1) (minedSorted 0 600000 mined1000)) feeRate = Num 1 \<and>
   (\<exists>s. minedTxsSummary 0 600000 mined1000 = Inr s \<and> fee_sum s (1/1000) = Some NaN) \<and>
   nat \<lceil>real (length mined1000) * (4/10)\<rceil> = 400 \<and>
   length (minQuant (minedSorted 0 600000 mined1000) (4/10)) = 399"
proof -
  have ne: "mined1000 \<noteq> []"
    using length_mined1000 by auto
  have q: "1/1000 \<in> set quantiles"
    by (simp add: quantiles_def)
  have "\<exists>s. minedTxsSummary 0 600000 mined1000 = Inr s \<and> fee_sum s (1/1000) = Some NaN"
    using fee_sum_empty_tail [OF ne q, of 0 600000] by (simp add: length_mined1000)
  moreover have "meanBy (drop (length mined1000 - 1) (minedSorted 0 600000 mined1000)) feeRate
      = Num 1"
    by (simp add: length_mined1000 minedSorted_mined1000 drop_map meanBy_def)
  moreover have "length (minQuant (minedSorted 0 600000 mined1000) (4/10)) = 399"
    by (simp add: minQuant_drop length_minedSorted length_mined1000)
  ultimately show ?thesis
    by (simp add: length_mined1000)
qed

subsection \<open>C9: transactions of equal fee rate\<close>

text \<open>
  Claim C9 says that, of two transactions of equal fee rate, the one of smaller
  \<^verbatim>\<open>txid\<close> comes first, so that the packed snapshot does not depend on the order in
  which the mapping enumerates its entries. Two entries of equal fee rate are packed in
  the order of the enumeration, either way round.
\<close>

theorem sortByFee_ties_follow_enumeration:
  "map txid (sortByFee 1000000 [(''b'', raw_ant 100 100 100), (''a'', raw_ant 100 100 100)])
     = [''b'', ''a''] \<and>
   map txid (sortByFee 1000000 [(''a'', raw_ant 100 100 100), (''b'', raw_ant 100 100 100)])
     = [''a'', ''b'']"
  by (simp add: sortByFee_pack raw_ant_def toFeeTx_def byFeeRate_def js_sub_def js_gt_def
      packStep_def)

text \<open>
  Claim C9, amended: the comparator of \<open>sortByFee\<close> compares fee rates only, whatever
  the \<^verbatim>\<open>txid\<close>s of the two transactions; and for an input mapping of at most 10 entries,
  none of which has the fee rate NaN, the transactions of one fee rate appear in the
  packed sequence in the order in which the input mapping enumerates them. (On such an
  input the comparator is consistent and every version of the engine sorts stably.)
\<close>

theorem sortByFee_stable:
  assumes "length txs \<le> 10" and "\<forall>p\<in>set txs. feeRate (toFeeTx p) \<noteq> NaN"
  shows "byFeeRate (a\<lparr>txid := k\<rparr>) (b\<lparr>txid := k'\<rparr>) = byFeeRate a b \<and>
         map txid (filter (\<lambda>t. feeRate t = r) (sortByFee bes txs)) =
         map fst (filter (\<lambda>p. feeRate (toFeeTx p) = r) txs)"
proof
  show "byFeeRate (a\<lparr>txid := k\<rparr>) (b\<lparr>txid := k'\<rparr>) = byFeeRate a b"
    by (simp add: byFeeRate_def)
next
  let ?s = "sortBy byFeeRate (map toFeeTx txs)"
  let ?key = "\<lambda>t. (txid t, feeRate t)"
  have filt: "map txid (filter (\<lambda>t. feeRate t = r) xs) =
                map fst (filter (\<lambda>p. snd p = r) (map ?key xs))" for xs :: "'z FeeTx_scheme list"
    by (induction xs) auto
  have "map txid (filter (\<lambda>t. feeRate t = r) (sortByFee bes txs)) =
        map fst (filter (\<lambda>p. snd p = r) (map ?key (pack bes (0, 1, 1) ?s)))"
    by (simp only: sortByFee_pack filt)
  also have "\<dots> = map txid (filter (\<lambda>t. feeRate t = r) ?s)"
    by (simp only: map_key_pack filt)
  also have "\<dots> = map txid (filter (\<lambda>t. feeRate t = r) (map toFeeTx txs))"
    by (simp only: sortBy_stable)
  also have "\<dots> = map fst (filter (\<lambda>p. feeRate (toFeeTx p) = r) txs)"
    by (induction txs) (auto simp: toFeeTx_def)
  finally show "map txid (filter (\<lambda>t. feeRate t = r) (sortByFee bes txs)) =
      map fst (filter (\<lambda>p. feeRate (toFeeTx p) = r) txs)" .
qed

text \<open>The theorem of C9 on three transactions of fee rates 1, 2 and 1, enumerated as
  \<open>b, c, a\<close>: they are packed as \<open>c, b, a\<close>, the two of fee rate 1 as enumerated.\<close>

theorem sortByFee_stable_witness:
  "map txid (sortByFee 1000000 txs_ties) = [''c'', ''b'', ''a''] \<and>
   map txid (filter (\<lambda>t. feeRate t = Num 1) (sortByFee 1000000 txs_ties)) = [''b'', ''a'']"
proof -
  have len: "length txs_ties \<le> 10"
    by (simp add: txs_ties_def)
  have rates: "\<forall>p\<in>set txs_ties. feeRate (toFeeTx p) \<noteq> NaN"
    by (simp add: txs_ties_def raw_ant_def toFeeTx_def)
  have "map txid (sortByFee 1000000 txs_ties) = [''c'', ''b'', ''a'']"
    by (simp add: sortByFee_pack txs_ties_def raw_ant_def toFeeTx_def byFeeRate_def
        js_sub_def js_gt_def packStep_def)
  moreover have "map fst (filter (\<lambda>p. feeRate (toFeeTx p) = Num 1) txs_ties) = [''b'', ''a'']"
    by (simp add: txs_ties_def raw_ant_def toFeeTx_def)
  ultimately show ?thesis
    using sortByFee_stable [OF len rates, where r = "Num 1" and bes = 1000000, THEN conjunct2]
    by simp
qed

subsection \<open>C10: an empty quantile tail\<close>

text \<open>
  Claim C10: for a mined event of \<open>n\<close> transactions and a quantile \<open>q\<close> of the summary
  with \<open>n * q \<le> 1\<close>, \<open>minQuant\<close> selects no entry of the sorted event, and the field of
  \<open>q\<close> in the summary is the mean of an empty list, NaN.
\<close>

theorem minedTxsSummary_NaN_quantile:
  assumes "500 < length mempool" and "q \<in> set quantiles"
      and "real (length mempool) * q \<le> 1"
  shows "minQuant (minedSorted ts i mempool) q = [] \<and>
         meanBy (minQuant (minedSorted ts i mempool) q) feeRate = NaN \<and>
         (\<exists>s. minedTxsSummary ts i mempool = Inr s \<and> fee_sum s q = Some NaN)"
proof -
  have ne: "mempool \<noteq> []"
    using assms(1) by auto
  have "minQuant (minedSorted ts i mempool) q = []"
    using assms(3) by (simp add: minQuant_empty length_minedSorted)
  then show ?thesis
    using fee_sum_empty_tail [OF ne assms(2) assms(3), of ts i]
    by (simp add: meanBy_def)
qed

text \<open>The theorem of C10 on a mined event of 501 transactions and the quantile 0.001.\<close>

theorem minedTxsSummary_NaN_quantile_witness:
  "minQuant (minedSorted 0 600000 mined501) (1/1000) = [] \<and>
   meanBy (minQuant (minedSorted 0 600000 mined501) (1/1000)) feeRate = NaN \<and>
   (\<exists>s. minedTxsSummary 0 600000 mined501 = Inr s \<and> fee_sum s (1/1000) = Some NaN)"
  using minedTxsSummary_NaN_quantile [of mined501 "1/1000" 0 600000]
  by (simp add: quantiles_def meanBy_def length_mined501)

end
